theory Spec2Isabelle
  imports Main "HOL-Library.Sublist"
begin

section \<open>Data model\<close>

text \<open>
  Modelled from the spec: the declaration of \<open>pkg_source\<close> lives in \<open>Birb.hpp\<close>, which is
  not among the sources. The spec (section 3) gives it three string attributes, and
  \<open>birb.cpp\<close> reads and writes exactly these three members.
\<close>

record pkg_source =
  name :: string
  url :: string
  path :: string


text \<open>\<open>pkg_source::is_valid\<close>; \<open>std::string::empty\<close> is equality with the empty list.\<close>

definition is_valid :: "pkg_source \<Rightarrow> bool" where
  "is_valid s = (\<not> name s = [] \<or> \<not> url s = [] \<or> \<not> path s = [])"

subsection \<open>The process state and the ways a call can end\<close>

text \<open>
  Modelled from the spec: \<open>var_cache\<close> is declared in \<open>Birb.hpp\<close>; the spec (section 3) describes
  it as a process-wide mapping from the composite key to the extracted value. The standard
  output stream is the text written to it so far.
\<close>

record process =
  var_cache :: "string \<rightharpoonup> string"
  cout :: string

text \<open>
  A call returns a value, ends the process through \<open>exit\<close>, ends it through an exception nobody
  catches (\<open>std::out_of_range\<close> from \<open>std::string::erase\<close>, \<open>std::filesystem::filesystem_error\<close>
  from a file-status query), reads a vector out of bounds, or never comes back.
\<close>

datatype 'a outcome =
    Returned 'a
  | Exited nat
  | Uncaught_out_of_range
  | Uncaught_filesystem_error
  | Undefined_behaviour
  | Diverged

fun outcome_bind :: "'a outcome \<Rightarrow> ('a \<Rightarrow> 'b outcome) \<Rightarrow> 'b outcome" where
  "outcome_bind (Returned x) k = k x"
| "outcome_bind (Exited n) k = Exited n"
| "outcome_bind Uncaught_out_of_range k = Uncaught_out_of_range"
| "outcome_bind Uncaught_filesystem_error k = Uncaught_filesystem_error"
| "outcome_bind Undefined_behaviour k = Undefined_behaviour"
| "outcome_bind Diverged k = Diverged"

subsection \<open>The file system, as the code observes it\<close>

text \<open>
  \<open>fs_status\<close> is the file type that \<open>std::filesystem::status(p, ec)\<close> reports for a path:
  \<open>Type_not_found\<close> when the path does not lead to a file, and \<open>Type_none\<close> when the query
  itself fails (no permission to search a directory of the path, a name that is too long).
  \<open>fs_contents\<close> is the byte sequence an \<open>std::ifstream\<close> opened on the path delivers, \<open>None\<close>
  when the stream cannot be opened.
\<close>

datatype file_type =
    Type_none
  | Type_not_found
  | Type_regular
  | Type_directory
  | Type_symlink
  | Type_block
  | Type_character
  | Type_fifo
  | Type_socket
  | Type_unknown

record filesystem =
  fs_status :: "string \<Rightarrow> file_type"
  fs_contents :: "string \<Rightarrow> string option"




subsection \<open>Standard-library string and stream operations\<close>

abbreviation newline :: char where
  "newline \<equiv> CHR 0x0A"

abbreviation dquote :: char where
  "dquote \<equiv> CHR 0x22"

text \<open>
  \<open>std::string::find(str)\<close>: the lowest position at which \<open>str\<close> occurs, \<open>None\<close> for \<open>npos\<close>.
  The empty string occurs at position 0 of every string.
\<close>

fun string_find :: "string \<Rightarrow> string \<Rightarrow> nat option" where
  "string_find [] d = (if d = [] then Some 0 else None)"
| "string_find (c # cs) d =
     (if prefix d (c # cs) then Some 0 else map_option Suc (string_find cs d))"

text \<open>
  \<open>std::string::erase(index, count)\<close>: throws \<open>std::out_of_range\<close> (here \<open>None\<close>) when
  \<open>index > size()\<close>, and otherwise removes \<open>min(count, size() - index)\<close> characters.
\<close>

definition erase :: "string \<Rightarrow> nat \<Rightarrow> nat \<Rightarrow> string option" where
  "erase s index count =
     (if index > length s then None else Some (take index s @ drop (index + count) s))"

text \<open>
  Subtraction on \<open>size_t\<close> (64 bits): below zero it wraps around to the top of the range.
\<close>

definition size_t_minus :: "nat \<Rightarrow> nat \<Rightarrow> nat" where
  "size_t_minus a b = (if b \<le> a then a - b else a + 2 ^ 64 - b)"

text \<open>
  An input file stream: the bytes not yet read, and whether the stream is still \<open>good()\<close>
  (neither \<open>eofbit\<close> nor \<open>failbit\<close> set).
\<close>

record ifstream =
  buffer :: string
  good :: bool

definition open_stream :: "string \<Rightarrow> ifstream" where
  "open_stream content = \<lparr>buffer = content, good = True\<rparr>"

text \<open>
  \<open>std::getline(stream, str)\<close>, returning whether the stream is still usable afterwards, the
  stream and the string. When the stream is not good the sentry fails and \<open>str\<close> is left as
  it was. Otherwise \<open>str\<close> is erased and characters are moved into it up to a newline, which
  is consumed and not stored, or up to the end of the file, which sets \<open>eofbit\<close>; \<open>failbit\<close>
  is set when nothing at all was extracted.
\<close>

definition getline :: "ifstream \<Rightarrow> string \<Rightarrow> bool \<times> ifstream \<times> string" where
  "getline f str =
     (if \<not> good f then (False, f, str)
      else if newline \<in> set (buffer f) then
        (True,
         f\<lparr>buffer := tl (dropWhile (\<lambda>c. c \<noteq> newline) (buffer f))\<rparr>,
         takeWhile (\<lambda>c. c \<noteq> newline) (buffer f))
      else (buffer f \<noteq> [], \<lparr>buffer = [], good = False\<rparr>, buffer f))"

definition stream_size :: "ifstream \<Rightarrow> nat" where
  "stream_size f = length (buffer f) + (if good f then 1 else 0)"

lemma getline_decreases:
  "getline f str = (True, f', str') \<Longrightarrow> stream_size f' < stream_size f"
  by (auto simp: getline_def stream_size_def less_Suc_eq_le length_dropWhile_le
      intro: le_trans[OF _ length_dropWhile_le] split: if_splits)

section \<open>The operations of birb.cpp\<close>

subsection \<open>split_string\<close>

partial_function (option) split_loop ::
  "string \<Rightarrow> string \<Rightarrow> string list \<Rightarrow> (string list \<times> string) option" where
  "split_loop text delimiter result =
     (case string_find text delimiter of
        None \<Rightarrow> Some (result, text)
      | Some pos \<Rightarrow>
          split_loop (drop (pos + length delimiter) text) delimiter (result @ [take pos text]))"

definition split_string :: "string \<Rightarrow> string \<Rightarrow> string list option" where
  "split_string text delimiter =
     (case split_loop text delimiter [] of
        None \<Rightarrow> None
      | Some (result, text') \<Rightarrow> Some (if text' \<noteq> [] then result @ [text'] else result))"

subsection \<open>read_file\<close>

function read_file_loop :: "ifstream \<Rightarrow> string \<Rightarrow> string list \<Rightarrow> string list" where
  "read_file_loop f line lines =
     (case getline f line of
        (False, f', line') \<Rightarrow> lines
      | (True, f', line') \<Rightarrow>
          if length line' = 0 \<or> line' ! 0 = CHR ''#'' then read_file_loop f' line' lines
          else read_file_loop f' line' (lines @ [line']))"
  by pat_completeness auto
termination
  by (relation "measure (\<lambda>(f, line, lines). stream_size f)")
     (auto dest: getline_decreases[OF sym])

declare read_file_loop.simps [simp del]

definition read_file :: "filesystem \<Rightarrow> process \<Rightarrow> string \<Rightarrow> string list outcome \<times> process" where
  "read_file fs w file_path =
     (case fs_contents fs file_path of
        None \<Rightarrow>
          (Exited 2,
           w\<lparr>cout := cout w @ ''File ['' @ file_path @ '' can'' @ [CHR 0x27] @ ''t be opened!''
                @ [newline]\<rparr>)
      | Some content \<Rightarrow> (Returned (read_file_loop (open_stream content) [] []), w))"

subsection \<open>get_pkg_sources\<close>

text \<open>
  The loop over \<open>repository_lines\<close>. Reading \<open>line[0]\<close>, \<open>line[1]\<close> and \<open>line[2]\<close> of a vector
  with fewer than three elements is outside the vector's bounds.
\<close>

fun get_pkg_sources_loop :: "string list \<Rightarrow> pkg_source list \<Rightarrow> pkg_source list outcome" where
  "get_pkg_sources_loop [] sources = Returned sources"
| "get_pkg_sources_loop (l # ls) sources =
     (case split_string l '';'' of
        None \<Rightarrow> Diverged
      | Some line \<Rightarrow>
          if length line < 3 then Undefined_behaviour
          else get_pkg_sources_loop ls
                 (sources @ [\<lparr>name = line ! 0, url = line ! 1, path = line ! 2\<rparr>]))"

text \<open>
  The macro \<open>PKG_SOURCE_CONFIG_PATH\<close> is defined in \<open>Birb.hpp\<close>; it is a parameter here.
\<close>

definition get_pkg_sources ::
  "string \<Rightarrow> filesystem \<Rightarrow> process \<Rightarrow> pkg_source list outcome \<times> process" where
  "get_pkg_sources pkg_source_config_path fs w =
     (case read_file fs w pkg_source_config_path of
        (r, w') \<Rightarrow> (outcome_bind r (\<lambda>repository_lines. get_pkg_sources_loop repository_lines []), w'))"

subsection \<open>locate_pkg_repo\<close>


subsection \<open>read_pkg_variable\<close>

text \<open>
  \<open>var_cache[key]\<close>: the subscript operator of the map inserts an empty string for a key that
  is not there yet, and yields the stored string.
\<close>

definition cache_subscript :: "process \<Rightarrow> string \<Rightarrow> string \<times> process" where
  "cache_subscript w key =
     (case var_cache w key of
        None \<Rightarrow> ([], w\<lparr>var_cache := (var_cache w)(key \<mapsto> [])\<rparr>)
      | Some v \<Rightarrow> (v, w))"

text \<open>
  The line-scanning loop; its value is \<open>var_line\<close> as the loop leaves it, at the
  \<open>break\<close> or when \<open>std::getline\<close> fails.
\<close>

function scan_loop :: "string \<Rightarrow> ifstream \<Rightarrow> string \<Rightarrow> string" where
  "scan_loop var_name pkg_file var_line =
     (case getline pkg_file var_line of
        (False, pkg_file', var_line') \<Rightarrow> var_line'
      | (True, pkg_file', var_line') \<Rightarrow>
          if take (length var_name + 2) var_line' = var_name @ [CHR ''='', dquote] then var_line'
          else scan_loop var_name pkg_file' var_line')"
  by pat_completeness auto
termination
  by (relation "measure (\<lambda>(var_name, pkg_file, var_line). stream_size pkg_file)")
     (auto dest: getline_decreases[OF sym])

declare scan_loop.simps [simp del]

definition read_pkg_variable ::
  "filesystem \<Rightarrow> process \<Rightarrow> string \<Rightarrow> string \<Rightarrow> string \<Rightarrow> string outcome \<times> process" where
  "read_pkg_variable fs w pkg_name var_name repo_path =
     (let key = pkg_name @ var_name;
          (cached, w1) = cache_subscript w key
      in if cached \<noteq> [] then (Returned cached, w1)
         else
           let pkg_path = repo_path @ ''/'' @ pkg_name @ ''/seed.sh''
           in case fs_contents fs pkg_path of
                None \<Rightarrow> (Returned [], w1)
              | Some content \<Rightarrow>
                  (case erase (scan_loop var_name (open_stream content) [])
                          0 (length var_name + 2) of
                     None \<Rightarrow> (Uncaught_out_of_range, w1)
                   | Some var_line1 \<Rightarrow>
                       (case erase var_line1 (size_t_minus (length var_line1) 1) 1 of
                          None \<Rightarrow> (Uncaught_out_of_range, w1)
                        | Some var_line2 \<Rightarrow>
                            (Returned var_line2,
                             w1\<lparr>var_cache := (var_cache w1)(key \<mapsto> var_line2)\<rparr>))))"

section \<open>The specification's notions\<close>

subsection \<open>Cutting a string at the leftmost occurrence of a delimiter\<close>

text \<open>
  The leftmost occurrence of \<open>d\<close> in a string: the first position, counting from the left,
  at which the next \<open>length d\<close> characters are \<open>d\<close>.
\<close>

definition leftmost_occurrence :: "string \<Rightarrow> string \<Rightarrow> nat option" where
  "leftmost_occurrence text d =
     List.find (\<lambda>i. take (length d) (drop i text) = d) [0..<Suc (length text)]"

lemma leftmost_occurrence_bound:
  assumes "leftmost_occurrence t d = Some i"
  shows "i + length d \<le> length t"
proof -
  from assms have i: "i \<in> set [0..<Suc (length t)]" and e: "take (length d) (drop i t) = d"
    unfolding leftmost_occurrence_def by (auto simp: find_Some_iff simp del: upt_Suc)
  from i have le: "i \<le> length t" by auto
  from e have "length (take (length d) (drop i t)) = length d" by simp
  then have "min (length d) (length t - i) = length d" by simp
  with le show ?thesis by arith
qed

lemma leftmost_occurrence_shrinks:
  assumes "leftmost_occurrence t d = Some i" and "d \<noteq> []"
  shows "length (drop (i + length d) t) < length t"
proof -
  from assms(2) have "0 < length d" by simp
  with leftmost_occurrence_bound[OF assms(1)] have "length t - (i + length d) < length t"
    by arith
  then show ?thesis by simp
qed

text \<open>
  The pieces obtained by cutting again and again at the leftmost occurrence of the delimiter,
  until none is left; what remains at the end is a piece only when it is not empty. The empty
  delimiter is outside the specification.
\<close>

function cut_at_leftmost :: "string \<Rightarrow> string \<Rightarrow> string list" where
  "cut_at_leftmost text d =
     (case leftmost_occurrence text d of
        None \<Rightarrow> if text = [] then [] else [text]
      | Some i \<Rightarrow> if d = [] then [] else take i text # cut_at_leftmost (drop (i + length d) text) d)"
  by pat_completeness auto
termination
  by (relation "measure (\<lambda>(text, d). length text)")
     (auto dest: leftmost_occurrence_shrinks)

declare cut_at_leftmost.simps [simp del]

subsection \<open>The lines of a text file\<close>

text \<open>
  The lines of a text: the pieces between newline characters; a text that ends in a newline
  has no further, empty line after it.
\<close>

fun text_lines :: "string \<Rightarrow> string list" where
  "text_lines [] = []"
| "text_lines (c # cs) =
     (if c = newline then [] # text_lines cs
      else (case text_lines cs of [] \<Rightarrow> [[c]] | l # ls \<Rightarrow> (c # l) # ls))"

text \<open>A configuration line is retained when it is not empty and does not start with \<open>#\<close>.\<close>

definition retained_line :: "string \<Rightarrow> bool" where
  "retained_line l = (l \<noteq> [] \<and> hd l \<noteq> CHR ''#'')"

text \<open>A line assigns a variable when it starts with the name, an equals sign and a double quote.\<close>

definition assigns :: "string \<Rightarrow> string \<Rightarrow> bool" where
  "assigns var_name l = prefix (var_name @ [CHR ''='', dquote]) l"

text \<open>
  What the scan over a build script leaves in \<open>var_line\<close>: the first line that assigns the
  variable; when there is none, the empty string if the script is empty or ends in a newline,
  and the script's last line otherwise.
\<close>

definition scan_result :: "string \<Rightarrow> string \<Rightarrow> string" where
  "scan_result var_name content =
     (case List.find (assigns var_name) (text_lines content) of
        Some l \<Rightarrow> l
      | None \<Rightarrow> if content = [] \<or> last content = newline then [] else last (text_lines content))"

text \<open>The cache misses on a key when it holds nothing, or the empty string, for it.\<close>

definition cache_miss :: "process \<Rightarrow> string \<Rightarrow> bool" where
  "cache_miss w key = (case var_cache w key of None \<Rightarrow> True | Some v \<Rightarrow> v = [])"

subsection \<open>Example inputs\<close>

definition seed_script :: string where
  "seed_script =
     ''NAME='' @ [dquote] @ ''pkg'' @ [dquote, newline] @
     ''DEPENDS='' @ [dquote] @ ''foo bar'' @ [dquote, newline] @
     ''FLAGS='' @ [dquote] @ ''test'' @ [dquote, newline]"

definition sources_conf :: string where
  "sources_conf =
     ''# package repositories'' @ [newline] @ [newline] @
     ''pkgsA;https://x;/repo/a'' @ [newline] @
     ''pkgsB;https://y;/repo/b;extra'' @ [newline]"

definition example_fs :: filesystem where
  "example_fs =
     \<lparr>fs_status = (\<lambda>p. if p = ''/repo/a/pkg/seed.sh'' then Type_directory
                        else if p = ''/repo/b/pkg/seed.sh'' then Type_regular
                        else if p = ''/repo/c/pkg/seed.sh'' then Type_regular
                        else Type_not_found),
      fs_contents = (\<lambda>p. if p = ''/repo/b/pkg/seed.sh'' then Some seed_script
                          else if p = ''/etc/birb-sources.conf'' then Some sources_conf
                          else None)\<rparr>"

definition single_file_fs :: "string \<Rightarrow> string \<Rightarrow> filesystem" where
  "single_file_fs p content =
     \<lparr>fs_status = (\<lambda>q. if q = p then Type_regular else Type_not_found),
      fs_contents = (\<lambda>q. if q = p then Some content else None)\<rparr>"


definition no_files :: filesystem where
  "no_files = \<lparr>fs_status = (\<lambda>p. Type_not_found), fs_contents = (\<lambda>p. None)\<rparr>"

definition fresh_process :: process where
  "fresh_process = \<lparr>var_cache = Map.empty, cout = []\<rparr>"

definition empty_value_script :: string where
  "empty_value_script = ''DEPENDS='' @ [dquote, dquote, newline]"

section \<open>The code against the specification's notions\<close>

subsection \<open>split_string cuts at the leftmost occurrence\<close>

lemma find_map_list: "List.find P (map f xs) = map_option f (List.find (\<lambda>x. P (f x)) xs)"
  by (induction xs) auto

lemma prefix_take: "prefix d t \<longleftrightarrow> take (length d) t = d"
  by (metis append_eq_conv_conj prefix_def append_take_drop_id)

lemma string_find_leftmost: "string_find t d = leftmost_occurrence t d"
proof (induction t)
  case Nil
  then show ?case by (auto simp: leftmost_occurrence_def)
next
  case (Cons c cs)
  have u: "[0..<Suc (Suc (length cs))] = 0 # map Suc [0..<Suc (length cs)]"
    by (simp add: upt_conv_Cons map_Suc_upt del: upt_Suc)
  show ?case
    unfolding leftmost_occurrence_def length_Cons u
    using Cons
    by (simp add: find_map_list prefix_take leftmost_occurrence_def del: upt_Suc)
qed

lemma split_loop_spec:
  "d \<noteq> [] \<Longrightarrow>
   (case split_loop t d acc of
      None \<Rightarrow> None
    | Some (result, text') \<Rightarrow> Some (if text' \<noteq> [] then result @ [text'] else result))
   = Some (acc @ cut_at_leftmost t d)"
proof (induction t d arbitrary: acc rule: cut_at_leftmost.induct)
  case (1 t d)
  show ?case
  proof (cases "leftmost_occurrence t d")
    case None
    then show ?thesis
      by (subst split_loop.simps, subst cut_at_leftmost.simps) (simp add: string_find_leftmost)
  next
    case (Some i)
    from "1.IH"[OF Some "1.prems" "1.prems"] Some "1.prems" show ?thesis
      by (subst split_loop.simps, subst cut_at_leftmost.simps) (simp add: string_find_leftmost)
  qed
qed

lemma split_string_spec: "d \<noteq> [] \<Longrightarrow> split_string t d = Some (cut_at_leftmost t d)"
  using split_loop_spec[of d t "[]"] by (simp add: split_string_def)


subsection \<open>The reading loops deliver the lines of the file\<close>

lemma text_lines_Nil_iff: "text_lines cs = [] \<longleftrightarrow> cs = []"
  by (cases cs) (auto split: list.splits)

lemma text_lines_no_newline: "newline \<notin> set cs \<Longrightarrow> cs \<noteq> [] \<Longrightarrow> text_lines cs = [cs]"
proof (induction cs)
  case Nil
  then show ?case by simp
next
  case (Cons c cs)
  show ?case
  proof (cases "cs = []")
    case True
    with Cons.prems show ?thesis by simp
  next
    case False
    with Cons have "text_lines cs = [cs]" by simp
    with Cons.prems show ?thesis by auto
  qed
qed

lemma text_lines_newline:
  "newline \<in> set cs \<Longrightarrow>
   text_lines cs = takeWhile (\<lambda>c. c \<noteq> newline) cs # text_lines (tl (dropWhile (\<lambda>c. c \<noteq> newline) cs))"
  by (induction cs) (auto split: list.splits simp: text_lines_Nil_iff)

lemma getline_bad: "\<not> good f \<Longrightarrow> getline f str = (False, f, str)"
  by (simp add: getline_def)

lemma getline_empty: "good f \<Longrightarrow> buffer f = [] \<Longrightarrow> getline f str = (False, \<lparr>buffer = [], good = False\<rparr>, [])"
  by (simp add: getline_def)

lemma getline_last:
  "good f \<Longrightarrow> buffer f \<noteq> [] \<Longrightarrow> newline \<notin> set (buffer f) \<Longrightarrow>
   getline f str = (True, \<lparr>buffer = [], good = False\<rparr>, buffer f)"
  by (simp add: getline_def)

lemma getline_line:
  "good f \<Longrightarrow> newline \<in> set (buffer f) \<Longrightarrow>
   getline f str = (True, f\<lparr>buffer := tl (dropWhile (\<lambda>c. c \<noteq> newline) (buffer f))\<rparr>,
                    takeWhile (\<lambda>c. c \<noteq> newline) (buffer f))"
  by (simp add: getline_def)

lemma length_rest_less:
  "newline \<in> set cs \<Longrightarrow> length (tl (dropWhile (\<lambda>c. c \<noteq> newline) cs)) < length cs"
proof -
  assume a: "newline \<in> set cs"
  then have "dropWhile (\<lambda>c. c \<noteq> newline) cs \<noteq> []" by auto
  then have "length (tl (dropWhile (\<lambda>c. c \<noteq> newline) cs)) < length (dropWhile (\<lambda>c. c \<noteq> newline) cs)"
    by (cases "dropWhile (\<lambda>c. c \<noteq> newline) cs") auto
  also have "\<dots> \<le> length cs" by (rule length_dropWhile_le)
  finally show ?thesis .
qed

lemma read_file_loop_bad: "\<not> good f \<Longrightarrow> read_file_loop f line acc = acc"
  by (subst read_file_loop.simps) (simp add: getline_bad)

lemma read_file_loop_lines:
  "good f \<Longrightarrow> read_file_loop f line acc = acc @ filter retained_line (text_lines (buffer f))"
proof (induction "length (buffer f)" arbitrary: f line acc rule: less_induct)
  case less
  show ?case
  proof (cases "buffer f = []")
    case True
    with less.prems show ?thesis
      by (subst read_file_loop.simps) (simp add: getline_empty)
  next
    case False
    show ?thesis
    proof (cases "newline \<in> set (buffer f)")
      case True
      let ?l = "takeWhile (\<lambda>c. c \<noteq> newline) (buffer f)"
      let ?f' = "f\<lparr>buffer := tl (dropWhile (\<lambda>c. c \<noteq> newline) (buffer f))\<rparr>"
      have g: "getline f line = (True, ?f', ?l)"
        using less.prems True by (rule getline_line)
      have lt: "length (buffer ?f') < length (buffer f)"
        using length_rest_less[OF True] by simp
      have good': "good ?f'" using less.prems by simp
      have ih: "\<And>ln a. read_file_loop ?f' ln a = a @ filter retained_line (text_lines (buffer ?f'))"
        using less.hyps[OF lt good'] .
      have r: "(length ?l = 0 \<or> ?l ! 0 = CHR ''#'') \<longleftrightarrow> \<not> retained_line ?l"
        by (cases ?l) (auto simp: retained_line_def)
      show ?thesis
        by (subst read_file_loop.simps) (use r in \<open>simp add: g ih text_lines_newline[OF True] del: length_0_conv\<close>)
    next
      case nonl: False
      have g: "getline f line = (True, \<lparr>buffer = [], good = False\<rparr>, buffer f)"
        using less.prems False nonl by (rule getline_last)
      have r: "(length (buffer f) = 0 \<or> buffer f ! 0 = CHR ''#'') \<longleftrightarrow> \<not> retained_line (buffer f)"
        by (cases "buffer f") (auto simp: retained_line_def)
      show ?thesis
        by (subst read_file_loop.simps)
          (use r in \<open>simp add: g read_file_loop_bad text_lines_no_newline[OF nonl False] del: length_0_conv\<close>)
    qed
  qed
qed

lemma read_file_open:
  "read_file_loop (open_stream content) line acc = acc @ filter retained_line (text_lines content)"
  by (simp add: read_file_loop_lines open_stream_def)

lemma assigns_take:
  "assigns var_name l \<longleftrightarrow> take (length var_name + 2) l = var_name @ [CHR ''='', dquote]"
  by (simp add: assigns_def prefix_take)

lemma scan_loop_bad: "\<not> good f \<Longrightarrow> scan_loop var_name f var_line = var_line"
  by (subst scan_loop.simps) (simp add: getline_bad)

lemma last_rest:
  assumes "newline \<in> set cs"
  shows "(last cs = newline) \<longleftrightarrow>
         (tl (dropWhile (\<lambda>c. c \<noteq> newline) cs) = [] \<or> last (tl (dropWhile (\<lambda>c. c \<noteq> newline) cs)) = newline)"
proof -
  have ne: "dropWhile (\<lambda>c. c \<noteq> newline) cs \<noteq> []"
    using assms by auto
  from hd_dropWhile[OF ne] have "hd (dropWhile (\<lambda>c. c \<noteq> newline) cs) = newline"
    by simp
  with ne obtain r where d: "dropWhile (\<lambda>c. c \<noteq> newline) cs = newline # r"
    by (cases "dropWhile (\<lambda>c. c \<noteq> newline) cs") auto
  have "cs = takeWhile (\<lambda>c. c \<noteq> newline) cs @ newline # r"
    using takeWhile_dropWhile_id[of "\<lambda>c. c \<noteq> newline" cs] d by simp
  then have "last cs = last (newline # r)" by (metis last_appendR list.distinct(1))
  then show ?thesis using d by auto
qed

lemma scan_loop_step:
  "getline f var_line = (True, f', l) \<Longrightarrow>
   scan_loop var_name f var_line = (if assigns var_name l then l else scan_loop var_name f' l)"
  by (subst scan_loop.simps) (simp add: assigns_take)

lemma scan_loop_lines:
  "good f \<Longrightarrow> scan_loop var_name f var_line = scan_result var_name (buffer f)"
proof (induction "length (buffer f)" arbitrary: f var_line rule: less_induct)
  case less
  show ?case
  proof (cases "buffer f = []")
    case True
    with less.prems show ?thesis
      by (subst scan_loop.simps) (simp add: getline_empty scan_result_def)
  next
    case False
    show ?thesis
    proof (cases "newline \<in> set (buffer f)")
      case True
      let ?l = "takeWhile (\<lambda>c. c \<noteq> newline) (buffer f)"
      let ?r = "tl (dropWhile (\<lambda>c. c \<noteq> newline) (buffer f))"
      let ?f' = "f\<lparr>buffer := ?r\<rparr>"
      have g: "getline f var_line = (True, ?f', ?l)"
        using less.prems True by (rule getline_line)
      have lt: "length (buffer ?f') < length (buffer f)"
        using length_rest_less[OF True] by simp
      have good': "good ?f'" using less.prems by simp
      have ih: "\<And>ln. scan_loop var_name ?f' ln = scan_result var_name ?r"
        using less.hyps[OF lt good'] by simp
      have tl: "text_lines (buffer f) = ?l # text_lines ?r"
        by (rule text_lines_newline[OF True])
      show ?thesis
      proof (cases "assigns var_name ?l")
        case a: True
        then show ?thesis
          by (simp add: scan_loop_step[OF g] tl scan_result_def)
      next
        case na: False
        have "scan_result var_name (buffer f) = scan_result var_name ?r"
          using na False last_rest[OF True]
          by (simp add: scan_result_def tl text_lines_Nil_iff split: option.splits)
        with na show ?thesis
          by (simp add: scan_loop_step[OF g] ih)
      qed
    next
      case nonl: False
      have g: "getline f var_line = (True, \<lparr>buffer = [], good = False\<rparr>, buffer f)"
        using less.prems False nonl by (rule getline_last)
      have "last (buffer f) \<in> set (buffer f)" using False by simp
      with nonl have nl: "last (buffer f) \<noteq> newline" by metis
      show ?thesis
        using False nl
        by (simp add: scan_loop_step[OF g] scan_loop_bad scan_result_def
             text_lines_no_newline[OF nonl False])
    qed
  qed
qed

lemma scan_open: "scan_loop var_name (open_stream content) var_line = scan_result var_name content"
  by (simp add: scan_loop_lines open_stream_def)

subsection \<open>read_pkg_variable, by whether the cache hits\<close>

lemma find_first_match:
  "\<forall>x \<in> set pre. \<not> P x \<Longrightarrow> P l \<Longrightarrow> List.find P (pre @ l # post) = Some l"
  by (induction pre) auto

lemma erase_front: "erase s 0 n = Some (drop n s)"
  by (simp add: erase_def)

lemma erase_last_empty: "erase [] (size_t_minus (length ([] :: string)) 1) 1 = None"
  by (simp add: erase_def size_t_minus_def)

lemma erase_last_nonempty: "s \<noteq> [] \<Longrightarrow> erase s (size_t_minus (length s) 1) 1 = Some (butlast s)"
  by (cases s rule: rev_cases) (auto simp: erase_def size_t_minus_def)

lemma cache_subscript_miss:
  "cache_miss w key \<Longrightarrow> cache_subscript w key = ([], w\<lparr>var_cache := (var_cache w)(key \<mapsto> [])\<rparr>)"
  by (auto simp: cache_miss_def cache_subscript_def fun_upd_idem split: option.splits)

lemma cache_subscript_hit:
  "var_cache w key = Some v \<Longrightarrow> cache_subscript w key = (v, w)"
  by (simp add: cache_subscript_def)

lemma read_pkg_variable_hit:
  "var_cache w (pkg_name @ var_name) = Some v \<Longrightarrow> v \<noteq> [] \<Longrightarrow>
   read_pkg_variable fs w pkg_name var_name repo_path = (Returned v, w)"
  by (simp add: read_pkg_variable_def cache_subscript_hit)

lemma cleanup:
  "(case erase s 0 n of
      None \<Rightarrow> A
    | Some v1 \<Rightarrow> (case erase v1 (size_t_minus (length v1) 1) 1 of None \<Rightarrow> B | Some v2 \<Rightarrow> C v2))
   = (if drop n s = [] then B else C (butlast (drop n s)))"
proof (cases "drop n s = []")
  case True
  then show ?thesis
    unfolding erase_front option.case by (simp add: erase_def size_t_minus_def)
next
  case False
  have e: "erase (drop n s) (size_t_minus (length (drop n s)) 1) 1 = Some (butlast (drop n s))"
    using False by (rule erase_last_nonempty)
  show ?thesis
    unfolding erase_front option.case e using False by simp
qed

lemma read_pkg_variable_miss:
  assumes "cache_miss w (pkg_name @ var_name)"
  shows "read_pkg_variable fs w pkg_name var_name repo_path =
     (case fs_contents fs (repo_path @ ''/'' @ pkg_name @ ''/seed.sh'') of
        None \<Rightarrow> (Returned [], w\<lparr>var_cache := (var_cache w)(pkg_name @ var_name \<mapsto> [])\<rparr>)
      | Some content \<Rightarrow>
          if drop (length var_name + 2) (scan_result var_name content) = []
          then (Uncaught_out_of_range, w\<lparr>var_cache := (var_cache w)(pkg_name @ var_name \<mapsto> [])\<rparr>)
          else (Returned (butlast (drop (length var_name + 2) (scan_result var_name content))),
                w\<lparr>var_cache := (var_cache w)
                     (pkg_name @ var_name \<mapsto> butlast (drop (length var_name + 2) (scan_result var_name content)))\<rparr>))"
  apply (simp only: read_pkg_variable_def Let_def cache_subscript_miss[OF assms] prod.case
      scan_open cleanup)
  apply (simp split: option.splits)
  done

lemma read_pkg_variable_caches:
  assumes "read_pkg_variable fs w pkg_name var_name repo_path = (Returned v, w')" and "v \<noteq> []"
  shows "var_cache w' (pkg_name @ var_name) = Some v"
proof (cases "cache_miss w (pkg_name @ var_name)")
  case True
  from assms show ?thesis
    unfolding read_pkg_variable_miss[OF True]
    by (auto split: option.splits if_splits)
next
  case False
  then obtain c where c: "var_cache w (pkg_name @ var_name) = Some c" "c \<noteq> []"
    by (auto simp: cache_miss_def split: option.splits)
  from assms show ?thesis
    unfolding read_pkg_variable_hit[OF c] using c by auto
qed

subsection \<open>locate_pkg_repo passes over a record that does not match\<close>


subsection \<open>get_pkg_sources builds one record per line\<close>

lemma get_pkg_sources_loop_records:
  "\<forall>l \<in> set ls. 3 \<le> length (cut_at_leftmost l '';'') \<Longrightarrow>
   get_pkg_sources_loop ls acc =
     Returned (acc @ map (\<lambda>l. \<lparr>name = cut_at_leftmost l '';'' ! 0,
                                 url = cut_at_leftmost l '';'' ! 1,
                                 path = cut_at_leftmost l '';'' ! 2\<rparr>) ls)"
  by (induction ls arbitrary: acc) (auto simp: split_string_spec)

subsection \<open>The example inputs, evaluated\<close>

lemma text_lines_seed_script: "text_lines seed_script = [''NAME='' @ [dquote] @ ''pkg'' @ [dquote], ''DEPENDS='' @ [dquote] @ ''foo bar'' @ [dquote], ''FLAGS='' @ [dquote] @ ''test'' @ [dquote]]"
  by (simp add: seed_script_def)

lemma retained_sources_conf: "filter retained_line (text_lines sources_conf) = [''pkgsA;https://x;/repo/a'', ''pkgsB;https://y;/repo/b;extra'']"
  by (simp add: sources_conf_def retained_line_def)

lemma cut_sources_conf_1: "cut_at_leftmost ''pkgsA;https://x;/repo/a'' '';'' = [''pkgsA'', ''https://x'', ''/repo/a'']"
  by (simp add: cut_at_leftmost.simps leftmost_occurrence_def)

lemma cut_sources_conf_2: "cut_at_leftmost ''pkgsB;https://y;/repo/b;extra'' '';'' = [''pkgsB'', ''https://y'', ''/repo/b'', ''extra'']"
  by (simp add: cut_at_leftmost.simps leftmost_occurrence_def)

section \<open>The claims\<close>

subsection \<open>C1: a build script without the variable\<close>

text \<open>
  Claim C1 says that when the build script opens and no line assigns the variable, the
  clean-up after the scan works on an empty string without faulting and the call returns the
  empty string. The code does not do that. On a script whose only line is \<open>NAME="pkg"\<close>, and
  on an empty script, \<open>var_line\<close> is empty after the scan, \<open>var_line.size() - 1\<close> wraps around,
  and \<open>std::string::erase\<close> throws \<open>std::out_of_range\<close>, which nothing catches. On a script
  whose last line has no newline after it, \<open>var_line\<close> still holds that line, and the call
  returns a fragment of it.
\<close>

theorem read_pkg_variable_no_match_faults:
  "fs_contents (single_file_fs ''/repo/pkg/seed.sh'' (''NAME='' @ [dquote] @ ''pkg'' @ [dquote, newline]))
     ''/repo/pkg/seed.sh'' = Some (''NAME='' @ [dquote] @ ''pkg'' @ [dquote, newline]) \<and>
   fst (read_pkg_variable
          (single_file_fs ''/repo/pkg/seed.sh'' (''NAME='' @ [dquote] @ ''pkg'' @ [dquote, newline]))
          fresh_process ''pkg'' ''DEPENDS'' ''/repo'') = Uncaught_out_of_range \<and>
   fst (read_pkg_variable (single_file_fs ''/repo/pkg/seed.sh'' []) fresh_process
          ''pkg'' ''DEPENDS'' ''/repo'') = Uncaught_out_of_range \<and>
   fst (read_pkg_variable
          (single_file_fs ''/repo/pkg/seed.sh'' (''NAME='' @ [dquote] @ ''some-package'' @ [dquote]))
          fresh_process ''pkg'' ''DEPENDS'' ''/repo'') = Returned ''e-package''"
  by (simp add: read_pkg_variable_miss cache_miss_def fresh_process_def single_file_fs_def
      scan_result_def assigns_def)

subsection \<open>C2: the first line that assigns the variable\<close>

text \<open>
  Claim C2, as amended: when the cache misses on the key (package name followed by variable
  name), the build script \<open>{repository_path}/{package_name}/seed.sh\<close> opens, and its first line
  that starts with the variable name, an equals sign and a double quote is longer than that
  prefix, then \<open>read_pkg_variable\<close> returns that line without its first
  \<open>length var_name + 2\<close> characters and without its last character, whatever lines follow,
  and stores the value in the cache under the key.
\<close>

theorem read_pkg_variable_first_match:
  assumes "cache_miss w (pkg_name @ var_name)"
    and "fs_contents fs (repo_path @ ''/'' @ pkg_name @ ''/seed.sh'') = Some content"
    and "text_lines content = pre @ l # post"
    and "\<forall>x \<in> set pre. \<not> prefix (var_name @ [CHR ''='', dquote]) x"
    and "prefix (var_name @ [CHR ''='', dquote]) l"
    and "l \<noteq> var_name @ [CHR ''='', dquote]"
  shows "read_pkg_variable fs w pkg_name var_name repo_path =
           (Returned (butlast (drop (length var_name + 2) l)),
            w\<lparr>var_cache := (var_cache w)(pkg_name @ var_name \<mapsto> butlast (drop (length var_name + 2) l))\<rparr>)"
proof -
  have sr: "scan_result var_name content = l"
    using assms(3-5) by (simp add: scan_result_def find_first_match assigns_def)
  from assms(5) obtain r where r: "l = (var_name @ [CHR ''='', dquote]) @ r"
    by (auto simp: prefix_def)
  with assms(6) have "r \<noteq> []" by auto
  with r have "drop (length var_name + 2) l \<noteq> []" by simp
  then show ?thesis
    unfolding read_pkg_variable_miss[OF assms(1)] assms(2) option.case sr by simp
qed

text \<open>
  On a script that holds the line \<open>DEPENDS="foo bar"\<close> after a line for another variable, the
  call for \<open>DEPENDS\<close> returns \<open>foo bar\<close>.
\<close>

theorem read_pkg_variable_first_match_witness:
  "read_pkg_variable example_fs fresh_process ''pkg'' ''DEPENDS'' ''/repo/b'' =
     (Returned ''foo bar'', \<lparr>var_cache = [''pkgDEPENDS'' \<mapsto> ''foo bar''], cout = []\<rparr>)"
  using read_pkg_variable_first_match[of fresh_process "''pkg''" "''DEPENDS''" example_fs "''/repo/b''"
      seed_script "[''NAME='' @ [dquote] @ ''pkg'' @ [dquote]]" "''DEPENDS='' @ [dquote] @ ''foo bar'' @ [dquote]"
      "[''FLAGS='' @ [dquote] @ ''test'' @ [dquote]]"]
  by (simp add: cache_miss_def fresh_process_def example_fs_def text_lines_seed_script)

text \<open>
  Claim C2 as stated, for every call, fails: with a non-empty value in the cache under the
  key the call returns that value, whatever the script says; and when the matching line is
  the bare prefix \<open>DEPENDS="\<close> the call does not return.
\<close>

theorem read_pkg_variable_first_match_counterexample:
  "fs_contents example_fs ''/repo/b/pkg/seed.sh'' = Some seed_script \<and>
   text_lines seed_script ! 1 = ''DEPENDS='' @ [dquote] @ ''foo bar'' @ [dquote] \<and>
   fst (read_pkg_variable example_fs \<lparr>var_cache = [''pkgDEPENDS'' \<mapsto> ''stale''], cout = []\<rparr>
          ''pkg'' ''DEPENDS'' ''/repo/b'') = Returned ''stale'' \<and>
   fst (read_pkg_variable (single_file_fs ''/repo/pkg/seed.sh'' (''DEPENDS='' @ [dquote, newline]))
          fresh_process ''pkg'' ''DEPENDS'' ''/repo'') = Uncaught_out_of_range"
  by (simp add: example_fs_def text_lines_seed_script read_pkg_variable_hit read_pkg_variable_miss cache_miss_def
      fresh_process_def single_file_fs_def scan_result_def assigns_def)

subsection \<open>C3: locating the repository of a package\<close>




subsection \<open>C4: splitting a string\<close>

text \<open>
  Claim C4: for a non-empty delimiter, \<open>split_string\<close> returns, and its result is the sequence
  of pieces cut at the leftmost occurrence of the delimiter, again and again until none is
  left, with what remains appended only when it is not empty. Splitting \<open>a;b;c\<close> on \<open>;\<close> gives
  \<open>a\<close>, \<open>b\<close>, \<open>c\<close>; \<open>a;;c\<close> gives \<open>a\<close>, the empty string, \<open>c\<close>; \<open>a;\<close> gives \<open>a\<close>; the empty
  string gives no piece.
\<close>

theorem split_string_cuts:
  "(delimiter \<noteq> [] \<longrightarrow> split_string t delimiter = Some (cut_at_leftmost t delimiter)) \<and>
   split_string ''a;b;c'' '';'' = Some [''a'', ''b'', ''c''] \<and>
   split_string ''a;;c'' '';'' = Some [''a'', [], ''c''] \<and>
   split_string ''a;'' '';'' = Some [''a''] \<and>
   split_string [] '';'' = Some []"
  by (simp add: split_string_spec cut_at_leftmost.simps leftmost_occurrence_def)

theorem split_string_cuts_witness:
  "split_string ''name, url, path'' '', '' = Some [''name'', ''url'', ''path''] \<and>
   cut_at_leftmost ''name, url, path'' '', '' = [''name'', ''url'', ''path'']"
  using split_string_cuts[of "'', ''" "''name, url, path''"]
  by (simp add: cut_at_leftmost.simps leftmost_occurrence_def)

subsection \<open>C5: the second call reads the cache\<close>

text \<open>
  Claim C5, as amended: after a call to \<open>read_pkg_variable\<close> has returned a non-empty value, a
  second call with the same arguments returns the same value and leaves the cache as it is,
  whatever the file system holds by then.
\<close>

theorem read_pkg_variable_second_call:
  assumes "read_pkg_variable fs w pkg_name var_name repo_path = (Returned v, w')"
    and "v \<noteq> []"
  shows "read_pkg_variable fs' w' pkg_name var_name repo_path = (Returned v, w')"
  using read_pkg_variable_caches[OF assms] assms(2) by (rule read_pkg_variable_hit)

theorem read_pkg_variable_second_call_witness:
  "read_pkg_variable example_fs fresh_process ''pkg'' ''DEPENDS'' ''/repo/b'' =
     (Returned ''foo bar'', \<lparr>var_cache = [''pkgDEPENDS'' \<mapsto> ''foo bar''], cout = []\<rparr>) \<and>
   read_pkg_variable no_files \<lparr>var_cache = [''pkgDEPENDS'' \<mapsto> ''foo bar''], cout = []\<rparr>
       ''pkg'' ''DEPENDS'' ''/repo/b'' =
     (Returned ''foo bar'', \<lparr>var_cache = [''pkgDEPENDS'' \<mapsto> ''foo bar''], cout = []\<rparr>)"
proof -
  have first: "read_pkg_variable example_fs fresh_process ''pkg'' ''DEPENDS'' ''/repo/b'' =
     (Returned ''foo bar'', \<lparr>var_cache = [''pkgDEPENDS'' \<mapsto> ''foo bar''], cout = []\<rparr>)"
    by (simp add: read_pkg_variable_miss cache_miss_def fresh_process_def example_fs_def
        seed_script_def scan_result_def assigns_def)
  have ne: "''foo bar'' \<noteq> []" by simp
  from first read_pkg_variable_second_call[OF first ne, of no_files] show ?thesis by simp
qed

text \<open>
  Claim C5 as stated, for every returned value, fails for the empty one: a script with the
  line \<open>DEPENDS=""\<close> makes the first call return the empty string, and after the script is
  replaced the second call returns the new script's value.
\<close>

theorem read_pkg_variable_second_call_counterexample:
  "read_pkg_variable (single_file_fs ''/repo/pkg/seed.sh'' empty_value_script) fresh_process
       ''pkg'' ''DEPENDS'' ''/repo'' =
     (Returned [], \<lparr>var_cache = [''pkgDEPENDS'' \<mapsto> []], cout = []\<rparr>) \<and>
   read_pkg_variable (single_file_fs ''/repo/pkg/seed.sh'' seed_script)
       \<lparr>var_cache = [''pkgDEPENDS'' \<mapsto> []], cout = []\<rparr> ''pkg'' ''DEPENDS'' ''/repo'' =
     (Returned ''foo bar'', \<lparr>var_cache = [''pkgDEPENDS'' \<mapsto> ''foo bar''], cout = []\<rparr>)"
  by (simp add: read_pkg_variable_miss cache_miss_def fresh_process_def single_file_fs_def
      seed_script_def empty_value_script_def scan_result_def assigns_def)

subsection \<open>C6: a build script that cannot be opened\<close>

text \<open>
  Claim C6, as amended: when the cache misses on the key and the build script cannot be
  opened, \<open>read_pkg_variable\<close> returns the empty string, writes nothing to the standard output
  and does not end the process; the cache holds the empty string under the key afterwards.
\<close>

theorem read_pkg_variable_open_failure:
  assumes "cache_miss w (pkg_name @ var_name)"
    and "fs_contents fs (repo_path @ ''/'' @ pkg_name @ ''/seed.sh'') = None"
  shows "read_pkg_variable fs w pkg_name var_name repo_path =
           (Returned [], w\<lparr>var_cache := (var_cache w)(pkg_name @ var_name \<mapsto> [])\<rparr>) \<and>
         cout (snd (read_pkg_variable fs w pkg_name var_name repo_path)) = cout w"
  unfolding read_pkg_variable_miss[OF assms(1)] assms(2) by simp

theorem read_pkg_variable_open_failure_witness:
  "read_pkg_variable no_files \<lparr>var_cache = Map.empty, cout = ''earlier output''\<rparr>
       ''pkg'' ''DEPENDS'' ''/repo'' =
     (Returned [], \<lparr>var_cache = [''pkgDEPENDS'' \<mapsto> []], cout = ''earlier output''\<rparr>)"
  using read_pkg_variable_open_failure[of "\<lparr>var_cache = Map.empty, cout = ''earlier output''\<rparr>"
      "''pkg''" "''DEPENDS''" no_files "''/repo''"]
  by (simp add: cache_miss_def no_files_def)

text \<open>
  Claim C6 as stated, for every call, fails: with a non-empty value in the cache under the
  key, the call returns that value although the build script cannot be opened.
\<close>

theorem read_pkg_variable_open_failure_counterexample:
  "fs_contents no_files ''/repo/pkg/seed.sh'' = None \<and>
   fst (read_pkg_variable no_files \<lparr>var_cache = [''pkgDEPENDS'' \<mapsto> ''foo bar''], cout = []\<rparr>
          ''pkg'' ''DEPENDS'' ''/repo'') = Returned ''foo bar''"
  by (simp add: no_files_def read_pkg_variable_hit)

subsection \<open>C7: a file that read_file cannot open\<close>

text \<open>
  Claim C7: when the file cannot be opened, \<open>read_file\<close> appends a message that names the
  path to the standard output and ends the process with exit status 2; it does not return.
\<close>

theorem read_file_open_failure:
  "fs_contents fs file_path = None \<Longrightarrow>
   read_file fs w file_path =
     (Exited 2,
      w\<lparr>cout := cout w @ ''File ['' @ file_path @ '' can'' @ [CHR 0x27] @ ''t be opened!''
            @ [newline]\<rparr>)"
  by (simp add: read_file_def)

theorem read_file_open_failure_witness:
  "read_file no_files fresh_process ''/etc/birb-sources.conf'' =
     (Exited 2,
      \<lparr>var_cache = Map.empty,
       cout = ''File [/etc/birb-sources.conf can'' @ [CHR 0x27] @ ''t be opened!'' @ [newline]\<rparr>)"
  using read_file_open_failure[of no_files "''/etc/birb-sources.conf''" fresh_process]
  by (simp add: no_files_def fresh_process_def)

subsection \<open>C8: the records of the configuration file\<close>

text \<open>
  Claim C8: when the configuration file opens and each of its retained lines (not empty,
  not starting with \<open>#\<close>) splits on \<open>;\<close> into at least three fields, \<open>get_pkg_sources\<close> returns
  one record per retained line, in the order of the file, with field 0 as the name, field 1
  as the url and field 2 as the path.
\<close>

theorem get_pkg_sources_records:
  assumes "fs_contents fs pkg_source_config_path = Some content"
    and "\<forall>l \<in> set (filter retained_line (text_lines content)).
           3 \<le> length (cut_at_leftmost l '';'')"
  shows "get_pkg_sources pkg_source_config_path fs w =
           (Returned (map (\<lambda>l. \<lparr>name = cut_at_leftmost l '';'' ! 0,
                                   url = cut_at_leftmost l '';'' ! 1,
                                   path = cut_at_leftmost l '';'' ! 2\<rparr>)
                        (filter retained_line (text_lines content))), w)"
  using get_pkg_sources_loop_records[OF assms(2), of "[]"]
  by (simp add: get_pkg_sources_def read_file_def assms(1) read_file_open)

theorem get_pkg_sources_records_witness:
  "get_pkg_sources ''/etc/birb-sources.conf'' example_fs fresh_process =
     (Returned [\<lparr>name = ''pkgsA'', url = ''https://x'', path = ''/repo/a''\<rparr>,
                \<lparr>name = ''pkgsB'', url = ''https://y'', path = ''/repo/b''\<rparr>], fresh_process)"
  using get_pkg_sources_records[of example_fs "''/etc/birb-sources.conf''" sources_conf fresh_process]
  by (simp add: example_fs_def retained_sources_conf cut_sources_conf_1 cut_sources_conf_2)

subsection \<open>C9: validity of a record\<close>

text \<open>
  Claim C9: \<open>is_valid\<close> holds exactly when at least one of name, url and path is not empty;
  only the record with all three empty is not valid.
\<close>

theorem is_valid_iff:
  "(is_valid s \<longleftrightarrow> (name s \<noteq> [] \<or> url s \<noteq> [] \<or> path s \<noteq> [])) \<and>
   (\<not> is_valid s \<longleftrightarrow> s = \<lparr>name = [], url = [], path = []\<rparr>)"
  by (cases s) (auto simp: is_valid_def)

theorem is_valid_iff_witness:
  "is_valid \<lparr>name = ''a'', url = [], path = []\<rparr> \<and>
   is_valid \<lparr>name = [], url = ''u'', path = []\<rparr> \<and>
   is_valid \<lparr>name = [], url = [], path = ''/p''\<rparr> \<and>
   \<not> is_valid \<lparr>name = [], url = [], path = []\<rparr>"
  using is_valid_iff[of "\<lparr>name = ''a'', url = [], path = []\<rparr>"]
    is_valid_iff[of "\<lparr>name = [], url = ''u'', path = []\<rparr>"]
    is_valid_iff[of "\<lparr>name = [], url = [], path = ''/p''\<rparr>"]
    is_valid_iff[of "\<lparr>name = [], url = [], path = []\<rparr>"]
  by simp

subsection \<open>C10: every call leaves the key in the cache\<close>

text \<open>
  Claim C10: after a call to \<open>read_pkg_variable\<close> the cache has an entry for the package name
  followed by the variable name. When the key was not there and the build script cannot be
  opened, the call returns the empty string and the entry is the empty string that the
  subscript on the cache put there.
\<close>

theorem read_pkg_variable_inserts_key:
  "pkg_name @ var_name \<in> dom (var_cache (snd (read_pkg_variable fs w pkg_name var_name repo_path))) \<and>
   (var_cache w (pkg_name @ var_name) = None \<longrightarrow>
    fs_contents fs (repo_path @ ''/'' @ pkg_name @ ''/seed.sh'') = None \<longrightarrow>
    fst (read_pkg_variable fs w pkg_name var_name repo_path) = Returned [] \<and>
    var_cache (snd (read_pkg_variable fs w pkg_name var_name repo_path)) (pkg_name @ var_name) = Some [])"
proof (cases "cache_miss w (pkg_name @ var_name)")
  case True
  show ?thesis
    unfolding read_pkg_variable_miss[OF True] by (simp split: option.splits)
next
  case False
  then obtain c where c: "var_cache w (pkg_name @ var_name) = Some c" "c \<noteq> []"
    by (auto simp: cache_miss_def split: option.splits)
  show ?thesis
    unfolding read_pkg_variable_hit[OF c] using c by auto
qed

theorem read_pkg_variable_inserts_key_witness:
  "var_cache fresh_process ''pkgDEPENDS'' = None \<and>
   fst (read_pkg_variable no_files fresh_process ''pkg'' ''DEPENDS'' ''/repo'') = Returned [] \<and>
   var_cache (snd (read_pkg_variable no_files fresh_process ''pkg'' ''DEPENDS'' ''/repo''))
     ''pkgDEPENDS'' = Some []"
  using read_pkg_variable_inserts_key[of "''pkg''" "''DEPENDS''" no_files fresh_process "''/repo''"]
  by (simp add: no_files_def fresh_process_def)

end
